theory Spec2Isabelle
  imports Main "HOL-Library.Word"
begin

unbundle bit_operations_syntax

section \<open>Shared definitions\<close>

type_synonym byte = "8 word"
type_synonym bytes = "byte list"

text \<open>
  The exceptions the client can raise.  \<open>LinstorError\<close> is the library's own exception
  with its message; the others are the interpreter's and the socket layer's.
\<close>

datatype error =
    LinstorError string
  | IndexError
  | DecodeError
  | StructError
  | AssertionError
  | AttributeError
  | SocketError string
  | SelectError string

text \<open>
  The module \<open>linstor.sharedconsts\<close> (imported as \<open>apiconsts\<close>) is generated from the
  controller's sources.  Its constants are a parameter of the model: every function
  that reads one takes the record.
\<close>

record sharedconsts =
  MASK_ERROR :: int
  MASK_WARN :: int
  MASK_INFO :: int
  API_VERSION :: string
  API_REPLY :: string
  API_LST_STOR_POOL_DFN :: string
  API_LST_STOR_POOL :: string
  API_LST_NODE :: string
  API_LST_RSC_DFN :: string
  API_LST_RSC :: string
  API_CRT_NODE :: string
  DFLT_CTRL_PORT_SSL :: int
  DFLT_CTRL_PORT_PLAIN :: int
  DFLT_STLT_PORT_PLAIN :: int
  VAL_NETCOM_TYPE_PLAIN :: string
  VAL_NETCOM_TYPE_SSL :: string
  VAL_NODE_TYPE_CTRL :: string

text \<open>One instance of the constants, with the values the controller publishes.\<close>

definition linstor_consts :: sharedconsts where
  "linstor_consts = \<lparr>
     MASK_ERROR = 0xC000000000000000,
     MASK_WARN = 0x8000000000000000,
     MASK_INFO = 0x4000000000000000,
     API_VERSION = ''Version'',
     API_REPLY = ''Reply'',
     API_LST_STOR_POOL_DFN = ''LstStorPoolDfn'',
     API_LST_STOR_POOL = ''LstStorPool'',
     API_LST_NODE = ''LstNode'',
     API_LST_RSC_DFN = ''LstRscDfn'',
     API_LST_RSC = ''LstRsc'',
     API_CRT_NODE = ''CrtNode'',
     DFLT_CTRL_PORT_SSL = 3377,
     DFLT_CTRL_PORT_PLAIN = 3376,
     DFLT_STLT_PORT_PLAIN = 3366,
     VAL_NETCOM_TYPE_PLAIN = ''PLAIN'',
     VAL_NETCOM_TYPE_SSL = ''SSL'',
     VAL_NODE_TYPE_CTRL = ''CONTROLLER'' \<rparr>"

section \<open>ApiCallResponse\<close>

text \<open>
  \<open>ret_code\<close> is a Python integer and \<open>&\<close> is Python's bitwise and on unbounded
  two's-complement integers, which is \<open>AND\<close> on \<open>int\<close>.
\<close>

definition is_error :: "sharedconsts \<Rightarrow> int \<Rightarrow> bool" where
  "is_error c ret_code = (if ret_code AND MASK_ERROR c = MASK_ERROR c then True else False)"

definition is_warning :: "sharedconsts \<Rightarrow> int \<Rightarrow> bool" where
  "is_warning c ret_code = (if ret_code AND MASK_WARN c = MASK_WARN c then True else False)"

definition is_info :: "sharedconsts \<Rightarrow> int \<Rightarrow> bool" where
  "is_info c ret_code = (if ret_code AND MASK_INFO c = MASK_INFO c then True else False)"

definition is_success :: "sharedconsts \<Rightarrow> int \<Rightarrow> bool" where
  "is_success c ret_code =
     (\<not> is_error c ret_code \<and> \<not> is_warning c ret_code \<and> \<not> is_info c ret_code)"

section \<open>Frame codec\<close>

text \<open>\<open>struct.unpack("!I", ...)\<close>: an unsigned integer from bytes in network order.\<close>

definition be_uint32 :: "bytes \<Rightarrow> nat" where
  "be_uint32 bs = foldl (\<lambda>acc b. acc * 256 + unat b) 0 bs"

text \<open>
  \<open>_parse_payload_length\<close>: the format \<open>!xxxxIxxxxxxxx\<close> has size 16, skips four
  bytes, reads four and skips eight.  The assertion fails on a header of another length.
\<close>

definition parse_payload_length :: "bytes \<Rightarrow> error + nat" where
  "parse_payload_length header =
     (if length header \<noteq> 16 then Inl AssertionError
      else Inr (be_uint32 (take 4 (drop 4 header))))"

text \<open>\<open>struct.pack("!I", n)\<close> raises \<open>struct.error\<close> when \<open>n\<close> does not fit 32 bits.\<close>

definition pack_uint32 :: "nat \<Rightarrow> error + bytes" where
  "pack_uint32 n =
     (if n < 2 ^ 32
      then Inr [of_nat (n div 2 ^ 24), of_nat (n div 2 ^ 16), of_nat (n div 2 ^ 8), of_nat n]
      else Inl StructError)"

text \<open>
  Modelled from the spec: the varint codec of the protobuf runtime
  (\<open>encoder._VarintBytes\<close>, \<open>decoder._DecodeVarint32\<close>), which is not part of the
  sources: base-128 groups, least significant first, the high bit of a byte saying that
  another byte follows.  The decoder reads \<open>buffer[pos]\<close> (an \<open>IndexError\<close> past the
  end), gives up after ten bytes and masks the value to 32 bits; it returns the value
  and the position after the varint.
\<close>

function VarintBytes :: "nat \<Rightarrow> bytes" where
  "VarintBytes v =
     (if v div 128 = 0 then [of_nat (v mod 128)]
      else of_nat (128 + v mod 128) # VarintBytes (v div 128))"
  by pat_completeness auto
termination
  by (relation "measure id") auto

function DecodeVarint :: "nat \<Rightarrow> bytes \<Rightarrow> nat \<Rightarrow> nat \<Rightarrow> nat \<Rightarrow> error + nat \<times> nat" where
  "DecodeVarint msk buffer pos result shift =
     (if length buffer \<le> pos then Inl IndexError
      else let b = unat (buffer ! pos);
               result = result OR push_bit shift (b AND 0x7f);
               pos = pos + 1
           in if b AND 0x80 = 0 then Inr (result AND msk, pos)
              else if 64 \<le> shift + 7 then Inl DecodeError
              else DecodeVarint msk buffer pos result (shift + 7))"
  by pat_completeness auto
termination
  by (relation "measure (\<lambda>(msk, buffer, pos, result, shift). length buffer - pos)") auto

declare VarintBytes.simps [simp del]
declare DecodeVarint.simps [simp del]

definition DecodeVarint32 :: "bytes \<Rightarrow> nat \<Rightarrow> error + nat \<times> nat" where
  "DecodeVarint32 buffer pos = DecodeVarint (2 ^ 32 - 1) buffer pos 0 0"

lemma DecodeVarint_advances:
  "DecodeVarint msk buffer pos result shift = Inr (v, p) \<Longrightarrow> pos < p"
proof (induction msk buffer pos result shift rule: DecodeVarint.induct)
  case (1 msk buffer pos result shift)
  show ?case
  proof (cases "length buffer \<le> pos")
    case True
    with "1.prems" show ?thesis by (simp add: DecodeVarint.simps [of msk buffer pos])
  next
    case False
    show ?thesis
    proof (cases "unat (buffer ! pos) AND 0x80 = 0")
      case True
      with False "1.prems" show ?thesis
        by (simp add: DecodeVarint.simps [of msk buffer pos] Let_def)
    next
      case nz: False
      show ?thesis
      proof (cases "64 \<le> shift + 7")
        case True
        with False nz "1.prems" show ?thesis
          by (simp add: DecodeVarint.simps [of msk buffer pos] Let_def)
      next
        case lt: False
        from False nz lt "1.prems"
        have "DecodeVarint msk buffer (pos + 1)
                (result OR push_bit shift (unat (buffer ! pos) AND 0x7f)) (shift + 7) = Inr (v, p)"
          by (simp add: DecodeVarint.simps [of msk buffer pos] Let_def)
        with "1.IH" [OF False refl refl refl nz lt] have "pos + 1 < p" by simp
        then show ?thesis by simp
      qed
    qed
  qed
qed

text \<open>
  \<open>_split_proto_msgs\<close>: the loop over the payload.  A Python slice never fails: where
  \<open>n + msg_len\<close> passes the end of the payload the slice is what is left of it.
\<close>

function split_loop :: "bytes \<Rightarrow> nat \<Rightarrow> bytes list \<Rightarrow> error + bytes list" where
  "split_loop payload n pb_msgs =
     (if n < length payload then
        (case DecodeVarint32 payload n of
           Inl e \<Rightarrow> Inl e
         | Inr (msg_len, new_pos) \<Rightarrow>
             split_loop payload (new_pos + msg_len)
               (pb_msgs @ [take msg_len (drop new_pos payload)]))
      else Inr pb_msgs)"
  by pat_completeness auto
termination
proof (relation "measure (\<lambda>(payload, n, pb_msgs). length payload - n)")
  show "wf (measure (\<lambda>(payload, n, pb_msgs). length payload - n))" by simp
next
  fix payload :: bytes and n :: nat and pb_msgs :: "bytes list" and x2 msg_len new_pos
  assume "n < length payload" and "DecodeVarint32 payload n = Inr x2" and "(msg_len, new_pos) = x2"
  then have "n < new_pos"
    using DecodeVarint_advances [of "2 ^ 32 - 1" payload n 0 0 msg_len new_pos]
    by (simp add: DecodeVarint32_def)
  with \<open>n < length payload\<close>
  show "((payload, new_pos + msg_len, pb_msgs @ [take msg_len (drop new_pos payload)]),
         (payload, n, pb_msgs)) \<in> measure (\<lambda>(payload, n, pb_msgs). length payload - n)"
    by simp
qed

declare split_loop.simps [simp del]

definition split_proto_msgs :: "bytes \<Rightarrow> error + bytes list" where
  "split_proto_msgs payload = split_loop payload 0 []"

text \<open>A sub-message on the wire: its length as a varint, then its bytes.\<close>

definition delimited :: "bytes \<Rightarrow> bytes" where
  "delimited m = VarintBytes (length m) @ m"

section \<open>Protobuf messages\<close>

text \<open>
  The message classes are generated from the controller's \<open>.proto\<close> files and are not
  part of the sources.  Their parsers and serialisers are a parameter of the model.
  \<open>'m\<close> is the type of the body messages a caller sends, \<open>'r\<close> the type of the parsed
  body messages of a reply.
\<close>

record msg_header =
  api_call :: string
  msg_id :: int

datatype msg_type =
  MsgApiCallResponse | MsgLstStorPoolDfn | MsgLstStorPool | MsgLstNode | MsgLstRscDfn | MsgLstRsc

record ('m, 'r) protobuf =
  ParseMsgHeader :: "bytes \<Rightarrow> error + msg_header"
  ParseMsgApiVersion :: "bytes \<Rightarrow> error + int"
  ParseReply :: "msg_type \<Rightarrow> bytes \<Rightarrow> error + 'r"
  SerializeMsgHeader :: "msg_header \<Rightarrow> bytes"
  SerializeToString :: "'m \<Rightarrow> bytes"

text \<open>A parsed reply message, bare or inside the \<open>ApiCallResponse\<close> wrapper class.\<close>

datatype 'r reply = Proto 'r | ApiCallResponse 'r

text \<open>
  \<open>_parse_proto_msgs\<close>: the first component of the type tuple is the message class, the
  second says whether the wrapper class is applied.
\<close>

fun parse_proto_msgs ::
  "('m, 'r) protobuf \<Rightarrow> msg_type \<times> bool \<Rightarrow> bytes list \<Rightarrow> error + 'r reply list" where
  "parse_proto_msgs pb type_tuple [] = Inr []"
| "parse_proto_msgs pb type_tuple (msg # data) =
     (case ParseReply pb (fst type_tuple) msg of
        Inl e \<Rightarrow> Inl e
      | Inr resp \<Rightarrow>
          (case parse_proto_msgs pb type_tuple data of
             Inl e \<Rightarrow> Inl e
           | Inr msg_resps \<Rightarrow>
               Inr ((if snd type_tuple then ApiCallResponse resp else Proto resp) # msg_resps)))"

text \<open>The dictionary \<open>reply_map\<close> of \<open>run\<close>: a later entry replaces an earlier one.\<close>

definition reply_map :: "sharedconsts \<Rightarrow> string \<rightharpoonup> msg_type \<times> bool" where
  "reply_map c =
     [API_REPLY c \<mapsto> (MsgApiCallResponse, True),
      API_LST_STOR_POOL_DFN c \<mapsto> (MsgLstStorPoolDfn, False),
      API_LST_STOR_POOL c \<mapsto> (MsgLstStorPool, False),
      API_LST_NODE c \<mapsto> (MsgLstNode, False),
      API_LST_RSC_DFN c \<mapsto> (MsgLstRscDfn, False),
      API_LST_RSC c \<mapsto> (MsgLstRsc, False)]"

section \<open>LinstorNetClient\<close>

text \<open>
  The socket as the client sees it: \<open>wire\<close> holds the bytes the peer has accepted from
  it so far, in order.  What the peer sends and how much it accepts at a time is the
  environment's choice and is an argument of the functions that read or write.
\<close>

record sock =
  wire :: bytes

record 'r session =
  socket :: "sock option"
  replies :: "int \<rightharpoonup> 'r reply list"
  api_version :: "int option"
  cur_msg_id :: int

text \<open>\<open>LinstorNetClient.__init__\<close>: no socket, no replies, the counter at 1.\<close>

definition new_client :: "'r session" where
  "new_client = \<lparr> socket = None, replies = Map.empty, api_version = None, cur_msg_id = 1 \<rparr>"

text \<open>
  \<open>AtomicInt.get_and_inc\<close>, on the value of the counter: the value returned and the new
  value.  The method runs under the counter's lock, so it is one step of the model.
\<close>

definition get_and_inc :: "int \<Rightarrow> int \<times> int" where
  "get_and_inc val = (val, val + 1)"

definition connected :: "'r session \<Rightarrow> bool" where
  "connected st = (socket st \<noteq> None)"

definition disconnect :: "'r session \<Rightarrow> 'r session" where
  "disconnect st = (if socket st \<noteq> None then st\<lparr>socket := None\<rparr> else st)"

definition parse_api_version ::
  "('m, 'r) protobuf \<Rightarrow> bytes \<Rightarrow> 'r session \<Rightarrow> error option \<times> 'r session" where
  "parse_api_version pb data st =
     (case ParseMsgApiVersion pb data of
        Inl e \<Rightarrow> (Some e, st)
      | Inr version \<Rightarrow>
          (None, if api_version st = None then st\<lparr>api_version := Some version\<rparr> else st))"

subsection \<open>The receiver: run\<close>

text \<open>The local variables of \<open>run\<close>.\<close>

record receiver =
  package :: bytes
  exp_pkg_len :: nat

text \<open>
  The part of \<open>run\<close> after the state variables are reset: the header message is parsed
  and the frame is handled by its api call.  A second version message fails the
  assertion after \<open>_parse_api_version\<close> has run; a known reply is parsed and stored under
  the header's message id; an unknown api call is logged.
\<close>

fun run_dispatch ::
  "sharedconsts \<Rightarrow> ('m, 'r) protobuf \<Rightarrow> bytes list \<Rightarrow> 'r session \<Rightarrow> error option \<times> 'r session" where
  "run_dispatch c pb [] st = (Some IndexError, st)"
| "run_dispatch c pb (m0 # rest) st =
     (case ParseMsgHeader pb m0 of
        Inl e \<Rightarrow> (Some e, st)
      | Inr hdr \<Rightarrow>
          if api_call hdr = API_VERSION c then
            (case rest of
               [] \<Rightarrow> (Some IndexError, st)
             | m1 # _ \<Rightarrow>
                 (case parse_api_version pb m1 st of
                    (Some e, st') \<Rightarrow> (Some e, st')
                  | (None, st') \<Rightarrow> (Some AssertionError, st')))
          else
            (case reply_map c (api_call hdr) of
               Some type_tuple \<Rightarrow>
                 (case parse_proto_msgs pb type_tuple rest of
                    Inl e \<Rightarrow> (Some e, st)
                  | Inr rs \<Rightarrow> (None, st\<lparr>replies := (replies st)(msg_id hdr \<mapsto> rs)\<rparr>))
             | None \<Rightarrow> (None, st)))"

text \<open>
  The body of the loop once \<open>recv\<close> has returned \<open>read\<close>, under the lock: the bytes are
  appended, the expected length is decoded once sixteen bytes are there, and the frame
  is split and dispatched when the package has the expected length.
\<close>

definition run_recv ::
  "sharedconsts \<Rightarrow> ('m, 'r) protobuf \<Rightarrow> bytes \<Rightarrow> 'r session \<times> receiver \<Rightarrow>
     error option \<times> 'r session \<times> receiver" where
  "run_recv c pb read = (\<lambda>(st, rc).
     let pkg = package rc @ read;
         pkg_len = length pkg
     in case (if pkg_len > 15 \<and> exp_pkg_len rc = 0
              then parse_payload_length (take 16 pkg)
              else Inr (exp_pkg_len rc)) of
          Inl e \<Rightarrow> (Some e, st, \<lparr>package = pkg, exp_pkg_len = exp_pkg_len rc\<rparr>)
        | Inr exp_len \<Rightarrow>
            if exp_len \<noteq> 0 \<and> pkg_len = exp_len + 16 then
              (case split_proto_msgs (drop 16 pkg) of
                 Inl e \<Rightarrow> (Some e, st, \<lparr>package = pkg, exp_pkg_len = exp_len\<rparr>)
               | Inr msgs \<Rightarrow>
                   if \<not> length msgs > 0
                   then (Some AssertionError, st, \<lparr>package = pkg, exp_pkg_len = exp_len\<rparr>)
                   else (case run_dispatch c pb msgs st of
                           (e, st') \<Rightarrow> (e, st', \<lparr>package = [], exp_pkg_len = 0\<rparr>)))
            else (None, st, \<lparr>package = pkg, exp_pkg_len = exp_len\<rparr>))"

text \<open>
  What one pass of the loop meets.  The loop tests the socket and calls \<open>select\<close> on it
  without holding the lock; \<open>closed_meanwhile\<close> says that another thread has called
  \<open>disconnect\<close> since the loop tested the socket.  \<open>select\<close> returns after at most two
  seconds, with the socket readable or not (\<open>Select\<close>), or it raises (\<open>SelectFails\<close>), as
  it can on a socket that has been closed under it.  When the socket is readable,
  \<open>recv\<close> returns bytes (none at end of file) or raises.
\<close>

datatype recv_result = Recv bytes | RecvError string

datatype event =
    Select (closed_meanwhile: bool) (ready: "recv_result option")
  | SelectFails (closed_meanwhile: bool) string

datatype outcome = Running | Exited | Raised error

text \<open>
  \<open>run\<close> on a schedule of events.  \<open>Exited\<close>: the loop has ended; \<open>Raised\<close>: an exception
  has left \<open>run\<close> and ended the thread; \<open>Running\<close>: the schedule is used up and the
  thread is still in its loop.
\<close>

fun run_loop ::
  "sharedconsts \<Rightarrow> ('m, 'r) protobuf \<Rightarrow> event list \<Rightarrow> 'r session \<times> receiver \<Rightarrow>
     outcome \<times> 'r session \<times> receiver" where
  "run_loop c pb [] (st, rc) =
     (if socket st = None then (Exited, st, rc) else (Running, st, rc))"
| "run_loop c pb (ev # evs) (st, rc) =
     (if socket st = None then (Exited, st, rc)
      else
        let st1 = (if closed_meanwhile ev then disconnect st else st)
        in case ev of
             SelectFails _ msg \<Rightarrow> (Raised (SelectError msg), st1, rc)
           | Select _ None \<Rightarrow> run_loop c pb evs (st1, rc)
           | Select _ (Some r) \<Rightarrow>
               if socket st1 = None then run_loop c pb evs (st1, rc)
               else (case r of
                       RecvError msg \<Rightarrow> (Raised (SocketError msg), st1, rc)
                     | Recv read \<Rightarrow>
                         (case run_recv c pb read (st1, rc) of
                            (Some e, st2, rc2) \<Rightarrow> (Raised e, st2, rc2)
                          | (None, st2, rc2) \<Rightarrow> run_loop c pb evs (st2, rc2))))"

definition run ::
  "sharedconsts \<Rightarrow> ('m, 'r) protobuf \<Rightarrow> event list \<Rightarrow> 'r session \<Rightarrow>
     outcome \<times> 'r session \<times> receiver" where
  "run c pb evs st = run_loop c pb evs (st, \<lparr>package = [], exp_pkg_len = 0\<rparr>)"

subsection \<open>The sender: send_msgs\<close>

text \<open>
  What one call of \<open>socket.send\<close> does: it accepts up to a number of the bytes it is
  given and returns how many it took, or raises.
\<close>

datatype send_result = Accept nat | SendError string

text \<open>
  The loop \<open>while sent < msg_len: sent += self._socket.send(full_msg)\<close> on a schedule of
  send results; past the end of the schedule a send accepts all it is given.
\<close>

fun send_loop :: "send_result list \<Rightarrow> bytes \<Rightarrow> nat \<Rightarrow> sock \<Rightarrow> error option \<times> sock" where
  "send_loop [] full_msg sent s =
     (if sent < length full_msg then (None, s\<lparr>wire := wire s @ full_msg\<rparr>) else (None, s))"
| "send_loop (r # rs) full_msg sent s =
     (if sent < length full_msg then
        (case r of
           SendError msg \<Rightarrow> (Some (SocketError msg), s)
         | Accept k \<Rightarrow>
             send_loop rs full_msg (sent + length (take k full_msg))
               (s\<lparr>wire := wire s @ take k full_msg\<rparr>))
      else (None, s))"

text \<open>
  The frame \<open>send_msgs\<close> builds: the header message and the body messages, each
  delimited, behind the sixteen bytes of type, payload length and reserved field.
\<close>

definition msg_serialized :: "('m, 'r) protobuf \<Rightarrow> msg_header \<Rightarrow> 'm list option \<Rightarrow> bytes" where
  "msg_serialized pb hdr_msg msgs =
     delimited (SerializeMsgHeader pb hdr_msg) @
     (case msgs of
        None \<Rightarrow> []
      | Some ms \<Rightarrow> concat (map (\<lambda>msg. delimited (SerializeToString pb msg)) ms))"

definition full_msg :: "('m, 'r) protobuf \<Rightarrow> msg_header \<Rightarrow> 'm list option \<Rightarrow> error + bytes" where
  "full_msg pb hdr_msg msgs =
     (let h_type = [0, 0, 0, 0];
          h_reserved = [0, 0, 0, 0, 0, 0, 0, 0];
          payload = msg_serialized pb hdr_msg msgs
      in case pack_uint32 (length payload) of
           Inl e \<Rightarrow> Inl e
         | Inr h_payload_length \<Rightarrow> Inr (h_type @ h_payload_length @ h_reserved @ payload))"

definition send_msgs ::
  "('m, 'r) protobuf \<Rightarrow> send_result list \<Rightarrow> string \<Rightarrow> 'm list option \<Rightarrow> 'r session \<Rightarrow>
     (error + int) \<times> 'r session" where
  "send_msgs pb sends api_call_type msgs st =
     (let (this_id, next_id) = get_and_inc (cur_msg_id st);
          st1 = st\<lparr>cur_msg_id := next_id\<rparr>;
          hdr_msg = \<lparr>api_call = api_call_type, msg_id = this_id\<rparr>
      in case full_msg pb hdr_msg msgs of
           Inl e \<Rightarrow> (Inl e, st1)
         | Inr frame \<Rightarrow>
             (case socket st1 of
                None \<Rightarrow> (Inl AttributeError, st1)
              | Some s \<Rightarrow>
                  (case send_loop sends frame 0 s of
                     (Some e, s') \<Rightarrow> (Inl e, st1\<lparr>socket := Some s'\<rparr>)
                   | (None, s') \<Rightarrow> (Inr this_id, st1\<lparr>socket := Some s'\<rparr>))))"



definition send_msg ::
  "('m, 'r) protobuf \<Rightarrow> send_result list \<Rightarrow> string \<Rightarrow> 'm option \<Rightarrow> 'r session \<Rightarrow>
     (error + int) \<times> 'r session" where
  "send_msg pb sends api_call_type msg st =
     send_msgs pb sends api_call_type (case msg of None \<Rightarrow> None | Some m \<Rightarrow> Some [m]) st"

subsection \<open>The waiter: wait_for_result\<close>

text \<open>
  What other threads do to the session while a waiter sleeps in \<open>wait(1)\<close>: the receiver
  stores a reply list, some thread disconnects, another waiter takes its replies.
\<close>

datatype 'r other = Deposit int "'r reply list" | Disconnect | Consume int

fun other_thread :: "'r other \<Rightarrow> 'r session \<Rightarrow> 'r session" where
  "other_thread (Deposit i rs) st = st\<lparr>replies := (replies st)(i \<mapsto> rs)\<rparr>"
| "other_thread Disconnect st = disconnect st"
| "other_thread (Consume i) st = st\<lparr>replies := (replies st)(i := None)\<rparr>"

text \<open>Whether an action of another thread stores replies for a message id.\<close>

fun deposits :: "int \<Rightarrow> 'r other \<Rightarrow> bool" where
  "deposits mid (Deposit i rs) = (i = mid)"
| "deposits mid Disconnect = False"
| "deposits mid (Consume i) = False"

text \<open>
  \<open>wait_for_result\<close>; each element of \<open>waits\<close> is what the other threads do during one
  \<open>wait(1)\<close>.  The result is \<open>None\<close> when the waiter is still in its loop after the last of
  them.
\<close>

fun wait_for_result ::
  "int \<Rightarrow> 'r other list list \<Rightarrow> 'r session \<Rightarrow> 'r reply list option \<times> 'r session" where
  "wait_for_result mid [] st =
     (case replies st mid of
        Some rs \<Rightarrow> (Some rs, st\<lparr>replies := (replies st)(mid := None)\<rparr>)
      | None \<Rightarrow> if \<not> connected st then (Some [], st) else (None, st))"
| "wait_for_result mid (w # waits) st =
     (case replies st mid of
        Some rs \<Rightarrow> (Some rs, st\<lparr>replies := (replies st)(mid := None)\<rparr>)
      | None \<Rightarrow>
          if \<not> connected st then (Some [], st)
          else wait_for_result mid waits (fold other_thread w st))"

subsection \<open>connect\<close>

text \<open>
  \<open>connect\<close> works on the result of \<open>urlparse\<close>.  \<open>utils.parse_host\<close> is not part of the
  sources and is a parameter; so is everything \<open>connect\<close> does with the socket once host
  and port are known (\<open>create_connection\<close>, the TLS wrapper, the blocking read of the
  version message), as \<open>establish\<close>: it gets host, port and whether TLS is wanted.
\<close>

record url =
  scheme :: string
  netloc :: string

datatype port = PortStr string | PortNum int

definition startswith :: "string \<Rightarrow> string \<Rightarrow> bool" where
  "startswith s p = (take (length p) s = p)"

definition connect ::
  "sharedconsts \<Rightarrow> (string \<Rightarrow> string \<times> string option) \<Rightarrow>
   (string \<Rightarrow> port \<Rightarrow> bool \<Rightarrow> 'r session \<Rightarrow> error option \<times> 'r session) \<Rightarrow>
   string \<Rightarrow> url \<Rightarrow> 'r session \<Rightarrow> (error + bool) \<times> 'r session" where
  "connect c parse_host establish server u st =
     (if \<not> startswith (scheme u) ''linstor'' then
        (Inl (LinstorError (''Unknown uri scheme '' @ [CHR 0x27] @ scheme u @ [CHR 0x27] @
                            '' in '' @ [CHR 0x27] @ server @ [CHR 0x27] @ ''.'')), st)
      else
        let (host, port) = parse_host (netloc u);
            port = (if port = None \<or> port = Some []
                    then PortNum (if scheme u = ''linstor+ssl''
                                  then DFLT_CTRL_PORT_SSL c else DFLT_CTRL_PORT_PLAIN c)
                    else PortStr (the port))
        in case establish host port (scheme u = ''linstor+ssl'') st of
             (None, st') \<Rightarrow> (Inr True, st')
           | (Some (SocketError err), st') \<Rightarrow>
               (Inl (LinstorError (''Error connecting: '' @ err)), st'\<lparr>socket := None\<rparr>)
           | (Some e, st') \<Rightarrow> (Inl e, st'))"

section \<open>Linstor\<close>

text \<open>
  The fields of the messages that \<open>node_create\<close> assigns; \<open>n_name\<close> and \<open>n_type\<close> are the
  fields \<open>name\<close> and \<open>type\<close> of the node message.
\<close>

record net_interface =
  name :: string
  address :: string
  stlt_port :: "int option"
  stlt_encryption_type :: "string option"

record node =
  n_name :: string
  n_type :: string
  net_interfaces :: "net_interface list"

record MsgCrtNode =
  node :: node

text \<open>
  The message \<open>node_create\<close> builds before it sends.  An optional field that is not
  assigned is \<open>None\<close>.
\<close>

definition crt_node :: "string \<Rightarrow> string \<Rightarrow> net_interface \<Rightarrow> MsgCrtNode" where
  "crt_node node_name node_type netif =
     \<lparr>node = \<lparr>n_name = node_name, n_type = node_type, net_interfaces = [netif]\<rparr>\<rparr>"

definition node_create_msg ::
  "sharedconsts \<Rightarrow> string \<Rightarrow> string \<Rightarrow> string \<Rightarrow> string \<Rightarrow> int option \<Rightarrow> string \<Rightarrow>
     error + MsgCrtNode" where
  "node_create_msg c node_name node_type ip com_type port netif_name =
     (let netif = \<lparr>name = netif_name, address = ip,
                   stlt_port = None, stlt_encryption_type = None\<rparr>
      in if port = None then
           (if com_type = VAL_NETCOM_TYPE_PLAIN c then
              Inr (crt_node node_name node_type
                     (netif\<lparr>stlt_port :=
                              Some (if node_type = VAL_NODE_TYPE_CTRL c
                                    then DFLT_CTRL_PORT_PLAIN c else DFLT_STLT_PORT_PLAIN c),
                            stlt_encryption_type := Some com_type\<rparr>))
            else if com_type = VAL_NETCOM_TYPE_SSL c then
              Inr (crt_node node_name node_type
                     (netif\<lparr>stlt_port := Some (DFLT_CTRL_PORT_SSL c),
                            stlt_encryption_type := Some com_type\<rparr>))
            else Inl (LinstorError (''Communication type '' @ com_type @
                                    '' has no default port'')))
         else Inr (crt_node node_name node_type netif))"

text \<open>
  \<open>node_create\<close>: the message is sent with the api call \<open>API_CRT_NODE\<close> and the replies
  are awaited.
\<close>

definition node_create ::
  "sharedconsts \<Rightarrow> (MsgCrtNode, 'r) protobuf \<Rightarrow> send_result list \<Rightarrow> 'r other list list \<Rightarrow>
   string \<Rightarrow> string \<Rightarrow> string \<Rightarrow> string \<Rightarrow> int option \<Rightarrow> string \<Rightarrow> 'r session \<Rightarrow>
     (error + 'r reply list option) \<times> 'r session" where
  "node_create c pb sends waits node_name node_type ip com_type port netif_name st =
     (case node_create_msg c node_name node_type ip com_type port netif_name of
        Inl e \<Rightarrow> (Inl e, st)
      | Inr msg \<Rightarrow>
          (case send_msg pb sends (API_CRT_NODE c) (Some msg) st of
             (Inl e, st') \<Rightarrow> (Inl e, st')
           | (Inr mid, st') \<Rightarrow>
               (case wait_for_result mid waits st' of (rs, st'') \<Rightarrow> (Inr rs, st''))))"

section \<open>Running the client\<close>









text \<open>
  A small stand-in for the generated message classes, to run the model on concrete
  bytes: a header message is one byte of message id and one byte that numbers the api
  call in \<open>demo_tags\<close>, a version message is one byte, a reply body is its bytes.
\<close>

definition demo_tags :: "string list" where
  "demo_tags = [''Version'', ''Reply'', ''LstStorPoolDfn'', ''LstStorPool'', ''LstNode'',
                ''LstRscDfn'', ''LstRsc'', ''CrtNode'']"

definition demo_pb :: "('m \<Rightarrow> bytes) \<Rightarrow> ('m, bytes) protobuf" where
  "demo_pb ser = \<lparr>
     ParseMsgHeader = (\<lambda>bs. case bs of
                          [b, t] \<Rightarrow> Inr \<lparr>api_call = (if unat t < length demo_tags
                                                     then demo_tags ! unat t else ''Bogus''),
                                          msg_id = uint b\<rparr>
                        | _ \<Rightarrow> Inl DecodeError),
     ParseMsgApiVersion = (\<lambda>bs. case bs of [b] \<Rightarrow> Inr (uint b) | _ \<Rightarrow> Inl DecodeError),
     ParseReply = (\<lambda>t bs. Inr bs),
     SerializeMsgHeader =
       (\<lambda>h. [of_int (msg_id h), of_nat (length (takeWhile (\<lambda>t. t \<noteq> api_call h) demo_tags))]),
     SerializeToString = ser \<rparr>"

text \<open>
  A connected session after the handshake, and two frames in the stand-in encoding: a
  reply to message 1 with the api call \<open>LstNode\<close> and one body message, and a version
  message.  Each has a payload of five bytes.
\<close>

definition demo_session :: "bytes session" where
  "demo_session = new_client\<lparr>socket := Some \<lparr>wire = []\<rparr>, api_version := Some 1\<rparr>"

definition demo_reply_frame :: bytes where
  "demo_reply_frame = [0, 0, 0, 0, 0, 0, 0, 5, 0, 0, 0, 0, 0, 0, 0, 0, 2, 1, 4, 1, 7]"

definition demo_version_frame :: bytes where
  "demo_version_frame = [0, 0, 0, 0, 0, 0, 0, 5, 0, 0, 0, 0, 0, 0, 0, 0, 2, 0, 0, 1, 1]"

section \<open>Return-code classes\<close>

text \<open>
  C5 (as stated, refuted).  The claim: for every return code exactly one of \<open>is_error\<close>,
  \<open>is_warning\<close>, \<open>is_info\<close> and \<open>is_success\<close> holds.  Each of the first three compares
  the code with its own mask and nothing orders them, so a code that holds the bits of
  two masks is in two classes.  With the published masks the error mask is the union of
  the other two and an error code is a warning and an info as well; with pairwise
  disjoint masks (4, 2 and 1) the code 6 is an error and a warning.
\<close>

theorem ret_code_classes_overlap:
  "is_error linstor_consts 0xC000000000000000
   \<and> is_warning linstor_consts 0xC000000000000000
   \<and> is_info linstor_consts 0xC000000000000000
   \<and> is_error (linstor_consts\<lparr>MASK_ERROR := 4, MASK_WARN := 2, MASK_INFO := 1\<rparr>) 6
   \<and> is_warning (linstor_consts\<lparr>MASK_ERROR := 4, MASK_WARN := 2, MASK_INFO := 1\<rparr>) 6"
  by (simp add: is_error_def is_warning_def is_info_def linstor_consts_def)

text \<open>
  C5 (amended).  For every return code and all masks at least one of the four
  predicates holds, and \<open>is_success\<close> holds exactly when none of the other three does.
  The other three are not exclusive: a code with the bits of all three masks set is an
  error, a warning and an info at once.
\<close>

theorem ret_code_classes:
  "(is_error c r \<or> is_warning c r \<or> is_info c r \<or> is_success c r)
   \<and> is_success c r = (\<not> (is_error c r \<or> is_warning c r \<or> is_info c r))
   \<and> (let r' = r OR MASK_ERROR c OR MASK_WARN c OR MASK_INFO c
      in is_error c r' \<and> is_warning c r' \<and> is_info c r')"
  by (auto simp add: is_error_def is_warning_def is_info_def is_success_def Let_def
        bit_eq_iff bit_and_iff bit_or_iff)

theorem ret_code_classes_witness:
  "is_success linstor_consts 0
   \<and> \<not> is_error linstor_consts 0 \<and> \<not> is_warning linstor_consts 0 \<and> \<not> is_info linstor_consts 0
   \<and> is_warning linstor_consts 0x8000000000000000
   \<and> \<not> is_success linstor_consts 0x8000000000000000"
  using ret_code_classes [of linstor_consts 0] ret_code_classes [of linstor_consts "0x8000000000000000"]
  by (simp add: is_error_def is_warning_def is_info_def is_success_def linstor_consts_def)

section \<open>Message ids\<close>
















section \<open>Waiting for a reply\<close>

lemma fold_other_socket_None:
  "socket st = None \<Longrightarrow> socket (fold other_thread w st) = None"
proof (induction w arbitrary: st)
  case Nil
  then show ?case by simp
next
  case (Cons a w)
  from Cons.prems have "socket (other_thread a st) = None"
    by (cases a) (simp_all add: disconnect_def)
  then show ?case using Cons.IH by simp
qed

lemma fold_other_disconnects:
  "Disconnect \<in> set w \<Longrightarrow> socket (fold other_thread w st) = None"
proof (induction w arbitrary: st)
  case Nil
  then show ?case by simp
next
  case (Cons a w)
  show ?case
  proof (cases "a = Disconnect")
    case True
    then have "socket (other_thread a st) = None" by (simp add: disconnect_def)
    then show ?thesis using fold_other_socket_None by simp
  next
    case False
    with Cons.prems have "Disconnect \<in> set w" by simp
    then show ?thesis using Cons.IH by simp
  qed
qed

lemma fold_other_no_deposit:
  "replies st mid = None \<Longrightarrow> \<not> list_ex (deposits mid) w \<Longrightarrow>
     replies (fold other_thread w st) mid = None"
proof (induction w arbitrary: st)
  case Nil
  then show ?case by simp
next
  case (Cons a w)
  from Cons.prems have "replies (other_thread a st) mid = None"
    by (cases a) (auto simp add: disconnect_def)
  moreover from Cons.prems have "\<not> list_ex (deposits mid) w" by simp
  ultimately show ?case using Cons.IH by simp
qed

lemma wait_disconnected:
  "replies st mid = None \<Longrightarrow> socket st = None \<Longrightarrow> wait_for_result mid waits st = (Some [], st)"
  by (cases waits) (simp_all add: connected_def)

lemma wait_deposited:
  "replies st mid = Some rs \<Longrightarrow>
     wait_for_result mid waits st = (Some rs, st\<lparr>replies := (replies st)(mid := None)\<rparr>)"
  by (cases waits) simp_all

lemma wait_becomes_disconnected:
  "replies st mid = None \<Longrightarrow> \<forall>w \<in> set pre. \<not> list_ex (deposits mid) w \<Longrightarrow>
   Disconnect \<in> set w \<Longrightarrow> \<not> list_ex (deposits mid) w \<Longrightarrow>
     fst (wait_for_result mid (pre @ w # post) st) = Some []"
proof (induction pre arbitrary: st)
  case Nil
  let ?st = "fold other_thread w st"
  from Nil have "replies ?st mid = None" by (simp add: fold_other_no_deposit)
  moreover from Nil have "socket ?st = None" by (simp add: fold_other_disconnects)
  ultimately have "wait_for_result mid post ?st = (Some [], ?st)" by (rule wait_disconnected)
  with Nil.prems(1) show ?case by (simp add: connected_def)
next
  case (Cons v pre)
  let ?st = "fold other_thread v st"
  from Cons.prems have "replies ?st mid = None" by (simp add: fold_other_no_deposit)
  from Cons.IH [OF this] Cons.prems
  have "fst (wait_for_result mid (pre @ w # post) ?st) = Some []" by simp
  with Cons.prems(1) show ?case by (simp add: connected_def)
qed

lemma fold_other_quiet:
  "Disconnect \<notin> set w \<Longrightarrow> socket (fold other_thread w st) = socket st"
proof (induction w arbitrary: st)
  case Nil
  then show ?case by simp
next
  case (Cons a w)
  from Cons.prems have "socket (other_thread a st) = socket st" by (cases a) simp_all
  with Cons show ?case by simp
qed

lemma wait_deposit_arrives:
  "replies st mid = None \<Longrightarrow> connected st \<Longrightarrow>
   \<forall>w \<in> set pre. \<not> list_ex (deposits mid) w \<and> Disconnect \<notin> set w \<Longrightarrow>
     fst (wait_for_result mid (pre @ [Deposit mid rs] # post) st) = Some rs
     \<and> replies (snd (wait_for_result mid (pre @ [Deposit mid rs] # post) st)) mid = None"
proof (induction pre arbitrary: st)
  case Nil
  then show ?case by (simp add: wait_deposited)
next
  case (Cons v pre)
  let ?st = "fold other_thread v st"
  from Cons.prems have "replies ?st mid = None" by (simp add: fold_other_no_deposit)
  moreover from Cons.prems have "connected ?st" by (simp add: connected_def fold_other_quiet)
  ultimately have "fst (wait_for_result mid (pre @ [Deposit mid rs] # post) ?st) = Some rs
     \<and> replies (snd (wait_for_result mid (pre @ [Deposit mid rs] # post) ?st)) mid = None"
    using Cons.IH Cons.prems by simp
  with Cons.prems(1,2) show ?case by simp
qed

text \<open>
  C7.  \<open>wait_for_result\<close> for a message id: if replies are stored under the id they are
  returned and the entry is removed; if none are stored and the session is
  disconnected, the result is the empty list and the session is unchanged.  If the
  session is disconnected during one of the waits and nobody stores replies under the
  id up to then, the result is the empty list; if replies are stored during a wait of a
  connected session, they are returned and removed.  The waiter never raises: its
  result is a list, or none while it is still waiting.
\<close>

theorem wait_for_result_returns:
  "(replies st mid = Some rs \<longrightarrow>
      wait_for_result mid waits st = (Some rs, st\<lparr>replies := (replies st)(mid := None)\<rparr>))
   \<and> (replies st mid = None \<and> \<not> connected st \<longrightarrow>
      wait_for_result mid waits st = (Some [], st))
   \<and> (replies st mid = None \<and> (\<forall>v \<in> set pre. \<not> list_ex (deposits mid) v)
      \<and> Disconnect \<in> set w \<and> \<not> list_ex (deposits mid) w \<longrightarrow>
      fst (wait_for_result mid (pre @ w # post) st) = Some [])
   \<and> (replies st mid = None \<and> connected st
      \<and> (\<forall>v \<in> set pre. \<not> list_ex (deposits mid) v \<and> Disconnect \<notin> set v) \<longrightarrow>
      fst (wait_for_result mid (pre @ [Deposit mid rs] # post) st) = Some rs
      \<and> replies (snd (wait_for_result mid (pre @ [Deposit mid rs] # post) st)) mid = None)"
  using wait_deposited [of st mid rs waits] wait_disconnected [of st mid waits]
    wait_becomes_disconnected [of st mid pre w post] wait_deposit_arrives [of st mid pre rs post]
  by (simp add: connected_def)

theorem wait_for_result_returns_witness:
  "fst (wait_for_result 1 [[], [Consume 2, Disconnect], []]
          (new_client\<lparr>socket := Some \<lparr>wire = []\<rparr>\<rparr> :: bytes session)) = Some []
   \<and> wait_for_result 1 [[]] (new_client :: bytes session) = (Some [], new_client)
   \<and> fst (wait_for_result 1 [[], [Deposit 1 [Proto [7]]], []]
          (new_client\<lparr>socket := Some \<lparr>wire = []\<rparr>\<rparr> :: bytes session)) = Some [Proto [7]]
   \<and> fst (wait_for_result 1 []
          (new_client\<lparr>replies := [1 \<mapsto> [Proto [7]]]\<rparr> :: bytes session)) = Some [Proto [7]]"
  using wait_for_result_returns [of "new_client\<lparr>socket := Some \<lparr>wire = []\<rparr>\<rparr> :: bytes session"
      1 "[Proto [7]]" "[]" "[[]]" "[Consume 2, Disconnect]" "[[]]"]
    wait_for_result_returns [of "new_client :: bytes session" 1 "[]" "[[]]" "[]" "[Disconnect]" "[]"]
    wait_for_result_returns [of "new_client\<lparr>replies := [1 \<mapsto> [Proto [7]]]\<rparr> :: bytes session"
      1 "[Proto [7]]" "[]" "[]" "[Disconnect]" "[]"]
  by (simp add: new_client_def connected_def)

section \<open>Creating a node\<close>

lemma crt_node_fields:
  "n_name (node (crt_node a b x)) = a"
  "n_type (node (crt_node a b x)) = b"
  "net_interfaces (node (crt_node a b x)) = [x]"
  by (simp_all add: crt_node_def)

lemma node_create_msg_explicit:
  "node_create_msg c nn nt ip ct (Some p) nif =
     Inr (crt_node nn nt \<lparr>name = nif, address = ip,
                            stlt_port = None, stlt_encryption_type = None\<rparr>)"
  by (simp add: node_create_msg_def Let_def)

lemma node_create_msg_plain:
  "ct = VAL_NETCOM_TYPE_PLAIN c \<Longrightarrow>
     node_create_msg c nn nt ip ct None nif =
       Inr (crt_node nn nt \<lparr>name = nif, address = ip,
              stlt_port = Some (if nt = VAL_NODE_TYPE_CTRL c
                                then DFLT_CTRL_PORT_PLAIN c else DFLT_STLT_PORT_PLAIN c),
              stlt_encryption_type = Some ct\<rparr>)"
  by (simp add: node_create_msg_def Let_def)

lemma node_create_msg_ssl:
  "ct \<noteq> VAL_NETCOM_TYPE_PLAIN c \<Longrightarrow> ct = VAL_NETCOM_TYPE_SSL c \<Longrightarrow>
     node_create_msg c nn nt ip ct None nif =
       Inr (crt_node nn nt \<lparr>name = nif, address = ip,
              stlt_port = Some (DFLT_CTRL_PORT_SSL c), stlt_encryption_type = Some ct\<rparr>)"
  by (simp add: node_create_msg_def Let_def)

lemma node_create_msg_other:
  "ct \<noteq> VAL_NETCOM_TYPE_PLAIN c \<Longrightarrow> ct \<noteq> VAL_NETCOM_TYPE_SSL c \<Longrightarrow>
     node_create_msg c nn nt ip ct None nif =
       Inl (LinstorError (''Communication type '' @ ct @ '' has no default port''))"
  by (simp add: node_create_msg_def Let_def)

text \<open>
  C10.  With an explicit port, \<open>node_create\<close> builds a message for the node with one
  network interface on which neither \<open>stlt_port\<close> nor \<open>stlt_encryption_type\<close> is set,
  and that message is what it sends.  The two fields are assigned only when the port is
  \<open>None\<close>: the controller's or the satellite's plain port for the plain communication
  type, by the node type; the controller's TLS port for the TLS type; each with the
  communication type as encryption type.  For any other type \<open>node_create\<close> raises.
\<close>

theorem node_create_port_fields:
  "(\<exists>m. node_create_msg c nn nt ip ct (Some p) nif = Inr m
       \<and> n_name (node m) = nn \<and> n_type (node m) = nt
       \<and> map name (net_interfaces (node m)) = [nif]
       \<and> map address (net_interfaces (node m)) = [ip]
       \<and> map stlt_port (net_interfaces (node m)) = [None]
       \<and> map stlt_encryption_type (net_interfaces (node m)) = [None]
       \<and> node_create c pb sends waits nn nt ip ct (Some p) nif st =
           (case send_msg pb sends (API_CRT_NODE c) (Some m) st of
              (Inl e, st') \<Rightarrow> (Inl e, st')
            | (Inr mid, st') \<Rightarrow>
                (case wait_for_result mid waits st' of (rs, st'') \<Rightarrow> (Inr rs, st''))))
   \<and> (ct = VAL_NETCOM_TYPE_PLAIN c \<longrightarrow>
        (\<exists>m. node_create_msg c nn nt ip ct None nif = Inr m
           \<and> n_name (node m) = nn \<and> n_type (node m) = nt
           \<and> map name (net_interfaces (node m)) = [nif]
           \<and> map address (net_interfaces (node m)) = [ip]
           \<and> map stlt_port (net_interfaces (node m)) =
               [Some (if nt = VAL_NODE_TYPE_CTRL c
                      then DFLT_CTRL_PORT_PLAIN c else DFLT_STLT_PORT_PLAIN c)]
           \<and> map stlt_encryption_type (net_interfaces (node m)) = [Some ct]))
   \<and> (ct \<noteq> VAL_NETCOM_TYPE_PLAIN c \<and> ct = VAL_NETCOM_TYPE_SSL c \<longrightarrow>
        (\<exists>m. node_create_msg c nn nt ip ct None nif = Inr m
           \<and> n_name (node m) = nn \<and> n_type (node m) = nt
           \<and> map name (net_interfaces (node m)) = [nif]
           \<and> map address (net_interfaces (node m)) = [ip]
           \<and> map stlt_port (net_interfaces (node m)) = [Some (DFLT_CTRL_PORT_SSL c)]
           \<and> map stlt_encryption_type (net_interfaces (node m)) = [Some ct]))
   \<and> (ct \<noteq> VAL_NETCOM_TYPE_PLAIN c \<and> ct \<noteq> VAL_NETCOM_TYPE_SSL c \<longrightarrow>
        node_create_msg c nn nt ip ct None nif =
          Inl (LinstorError (''Communication type '' @ ct @ '' has no default port''))
        \<and> node_create c pb sends waits nn nt ip ct None nif st =
          (Inl (LinstorError (''Communication type '' @ ct @ '' has no default port'')), st))"
proof -
  let ?bare = "\<lparr>name = nif, address = ip, stlt_port = None, stlt_encryption_type = None\<rparr>"
  let ?plain = "\<lparr>name = nif, address = ip,
                 stlt_port = Some (if nt = VAL_NODE_TYPE_CTRL c
                                   then DFLT_CTRL_PORT_PLAIN c else DFLT_STLT_PORT_PLAIN c),
                 stlt_encryption_type = Some ct\<rparr>"
  let ?ssl = "\<lparr>name = nif, address = ip, stlt_port = Some (DFLT_CTRL_PORT_SSL c),
               stlt_encryption_type = Some ct\<rparr>"
  have sent: "node_create c pb sends waits nn nt ip ct (Some p) nif st =
           (case send_msg pb sends (API_CRT_NODE c) (Some (crt_node nn nt ?bare)) st of
              (Inl e, st') \<Rightarrow> (Inl e, st')
            | (Inr mid, st') \<Rightarrow>
                (case wait_for_result mid waits st' of (rs, st'') \<Rightarrow> (Inr rs, st'')))"
    by (simp only: node_create_def node_create_msg_explicit sum.case)
  show ?thesis
  proof (intro conjI impI exI)
    show "node_create_msg c nn nt ip ct (Some p) nif = Inr (crt_node nn nt ?bare)"
      by (rule node_create_msg_explicit)
    show "node_create c pb sends waits nn nt ip ct (Some p) nif st =
           (case send_msg pb sends (API_CRT_NODE c) (Some (crt_node nn nt ?bare)) st of
              (Inl e, st') \<Rightarrow> (Inl e, st')
            | (Inr mid, st') \<Rightarrow>
                (case wait_for_result mid waits st' of (rs, st'') \<Rightarrow> (Inr rs, st'')))"
      by (rule sent)
    show "node_create_msg c nn nt ip ct None nif = Inr (crt_node nn nt ?plain)"
      if "ct = VAL_NETCOM_TYPE_PLAIN c"
      by (rule node_create_msg_plain [OF that])
    show "node_create_msg c nn nt ip ct None nif = Inr (crt_node nn nt ?ssl)"
      if "ct \<noteq> VAL_NETCOM_TYPE_PLAIN c \<and> ct = VAL_NETCOM_TYPE_SSL c"
      by (rule node_create_msg_ssl [OF that [THEN conjunct1] that [THEN conjunct2]])
    show "node_create_msg c nn nt ip ct None nif =
            Inl (LinstorError (''Communication type '' @ ct @ '' has no default port''))"
      if "ct \<noteq> VAL_NETCOM_TYPE_PLAIN c \<and> ct \<noteq> VAL_NETCOM_TYPE_SSL c"
      by (rule node_create_msg_other [OF that [THEN conjunct1] that [THEN conjunct2]])
    show "node_create c pb sends waits nn nt ip ct None nif st =
          (Inl (LinstorError (''Communication type '' @ ct @ '' has no default port'')), st)"
      if "ct \<noteq> VAL_NETCOM_TYPE_PLAIN c \<and> ct \<noteq> VAL_NETCOM_TYPE_SSL c"
      using node_create_msg_other [OF that [THEN conjunct1] that [THEN conjunct2]]
      by (simp only: node_create_def sum.case)
  qed (simp_all only: crt_node_fields list.map net_interface.simps)
qed

theorem node_create_port_fields_witness:
  "map_sum id (\<lambda>m. map stlt_port (net_interfaces (node m)))
      (node_create_msg linstor_consts ''alpha'' ''SATELLITE'' ''10.0.0.1'' ''PLAIN''
         (Some 4000) ''default'') = Inr [None]
   \<and> map_sum id (\<lambda>m. map stlt_encryption_type (net_interfaces (node m)))
      (node_create_msg linstor_consts ''alpha'' ''SATELLITE'' ''10.0.0.1'' ''PLAIN''
         (Some 4000) ''default'') = Inr [None]
   \<and> map_sum id (\<lambda>m. map stlt_port (net_interfaces (node m)))
      (node_create_msg linstor_consts ''alpha'' ''SATELLITE'' ''10.0.0.1'' ''PLAIN''
         None ''default'') = Inr [Some 3366]
   \<and> map_sum id (\<lambda>m. map stlt_encryption_type (net_interfaces (node m)))
      (node_create_msg linstor_consts ''alpha'' ''SATELLITE'' ''10.0.0.1'' ''PLAIN''
         None ''default'') = Inr [Some ''PLAIN'']"
proof -
  have pl: "''PLAIN'' = VAL_NETCOM_TYPE_PLAIN linstor_consts"
    and dflt: "(if ''SATELLITE'' = VAL_NODE_TYPE_CTRL linstor_consts
                then DFLT_CTRL_PORT_PLAIN linstor_consts
                else DFLT_STLT_PORT_PLAIN linstor_consts) = 3366"
    by (simp_all add: linstor_consts_def)
  note t = node_create_port_fields [of linstor_consts "''alpha''" "''SATELLITE''" "''10.0.0.1''"
      "''PLAIN''" 4000 "''default''" "demo_pb (\<lambda>m. [])" "[]" "[]" new_client]
  from t [THEN conjunct1] obtain m where
    "node_create_msg linstor_consts ''alpha'' ''SATELLITE'' ''10.0.0.1'' ''PLAIN''
       (Some 4000) ''default'' = Inr m"
    and "map stlt_port (net_interfaces (node m)) = [None]"
    and "map stlt_encryption_type (net_interfaces (node m)) = [None]"
    by (elim exE conjE)
  moreover from t [THEN conjunct2, THEN conjunct1, THEN mp, OF pl] obtain m' where
    "node_create_msg linstor_consts ''alpha'' ''SATELLITE'' ''10.0.0.1'' ''PLAIN''
       None ''default'' = Inr m'"
    and "map stlt_port (net_interfaces (node m')) =
           [Some (if ''SATELLITE'' = VAL_NODE_TYPE_CTRL linstor_consts
                  then DFLT_CTRL_PORT_PLAIN linstor_consts
                  else DFLT_STLT_PORT_PLAIN linstor_consts)]"
    and "map stlt_encryption_type (net_interfaces (node m')) = [Some ''PLAIN'']"
    by (elim exE conjE)
  ultimately show ?thesis by (simp only: dflt map_sum.simps id_apply simp_thms)
qed

section \<open>The receiver loop\<close>

lemmas run_eval =
  run_def run_recv_def parse_payload_length_def be_uint32_def split_proto_msgs_def
  split_loop.simps DecodeVarint32_def DecodeVarint.simps demo_pb_def demo_tags_def
  linstor_consts_def reply_map_def parse_api_version_def new_client_def disconnect_def
  demo_session_def demo_reply_frame_def demo_version_frame_def connected_def

lemma run_recv_excess:
  "exp_pkg_len rc \<noteq> 0 \<Longrightarrow> exp_pkg_len rc + 16 < length (package rc @ read) \<Longrightarrow>
     run_recv c pb read (st, rc) =
       (None, st, \<lparr>package = package rc @ read, exp_pkg_len = exp_pkg_len rc\<rparr>)"
  by (simp add: run_recv_def Let_def)

lemma run_loop_no_socket:
  "socket st = None \<Longrightarrow> run_loop c pb evs (st, rc) = (Exited, st, rc)"
  by (cases evs) simp_all

text \<open>
  C1 (the code differs).  The claim: whenever the buffer holds at least 16 + N bytes,
  one frame of 16 + N bytes is dispatched and the excess is kept.  The loop dispatches
  only when the buffer holds exactly 16 + N bytes.  A read that brings the frame alone
  stores the reply; a read that brings the frame and one byte more stores nothing and
  keeps all the bytes; and when two frames arrive as the first with a prefix of the
  second, then the rest, both are complete in the buffer and neither is dispatched.
  By \<open>run_recv_excess\<close> the buffer, once longer than 16 + N, only grows.
\<close>

theorem run_coalesced_frames:
  "run linstor_consts (demo_pb id) [Select False (Some (Recv demo_reply_frame))] demo_session
     = (Running, demo_session\<lparr>replies := [1 \<mapsto> [Proto [7]]]\<rparr>,
        \<lparr>package = [], exp_pkg_len = 0\<rparr>)
   \<and> run linstor_consts (demo_pb id)
       [Select False (Some (Recv (demo_reply_frame @ [0])))] demo_session
     = (Running, demo_session, \<lparr>package = demo_reply_frame @ [0], exp_pkg_len = 5\<rparr>)
   \<and> run linstor_consts (demo_pb id)
       [Select False (Some (Recv (demo_reply_frame @ take 3 demo_reply_frame))),
        Select False (Some (Recv (drop 3 demo_reply_frame)))] demo_session
     = (Running, demo_session,
        \<lparr>package = demo_reply_frame @ demo_reply_frame, exp_pkg_len = 5\<rparr>)"
  by (simp add: run_eval)

text \<open>
  C3 (as stated, refuted).  The claim: on end of file or an I/O error the receiver sets
  the socket to none, releases the waiters and leaves its loop.  At end of file \<open>recv\<close>
  returns no bytes: the receiver stays in its loop and the socket stays set.  An I/O
  error leaves \<open>run\<close> as an exception, the socket still set.  In both cases the session
  is still connected and a waiter is still waiting after its next wake-up.
\<close>

theorem run_keeps_socket_at_eof:
  "run linstor_consts (demo_pb id) [Select False (Some (Recv []))] demo_session
     = (Running, demo_session, \<lparr>package = [], exp_pkg_len = 0\<rparr>)
   \<and> run linstor_consts (demo_pb id) [Select False (Some (RecvError ''reset''))] demo_session
     = (Raised (SocketError ''reset''), demo_session, \<lparr>package = [], exp_pkg_len = 0\<rparr>)
   \<and> connected demo_session
   \<and> fst (wait_for_result 1 [[]] demo_session) = None"
  by (simp add: run_eval)

text \<open>
  C3 (amended).  After another thread has closed the socket with \<open>disconnect\<close>, the
  receiver ends without reading and without touching the reply table.  It leaves its
  loop when it finds the socket none, at the test of its loop or under the lock after
  \<open>select\<close> has returned; and when \<open>select\<close> fails on the socket that was closed under
  it, the receiver ends with that exception.  The session is then not connected, and
  \<open>wait_for_result\<close> for an id with no stored replies returns the empty list.
\<close>

theorem run_ends_on_disconnect:
  "(socket st = None \<longrightarrow> run_loop c pb evs (st, rc) = (Exited, st, rc))
   \<and> (socket st \<noteq> None \<and> closed_meanwhile ev \<longrightarrow>
        run_loop c pb (ev # evs) (st, rc) =
          ((case ev of Select b r \<Rightarrow> Exited | SelectFails b msg \<Rightarrow> Raised (SelectError msg)),
           disconnect st, rc))
   \<and> \<not> connected (disconnect st)
   \<and> (replies st mid = None \<longrightarrow>
      wait_for_result mid waits (disconnect st) = (Some [], disconnect st))"
proof -
  have off: "socket (disconnect st) = None" by (simp add: disconnect_def)
  have "run_loop c pb (ev # evs) (st, rc) =
          ((case ev of Select b r \<Rightarrow> Exited | SelectFails b msg \<Rightarrow> Raised (SelectError msg)),
           disconnect st, rc)"
    if "socket st \<noteq> None" and "closed_meanwhile ev"
  proof (cases ev)
    case (Select b r)
    with that off show ?thesis
      by (cases r) (auto simp add: run_loop_no_socket Let_def)
  next
    case (SelectFails b msg)
    with that show ?thesis by (auto simp add: Let_def)
  qed
  moreover have "replies (disconnect st) mid = replies st mid" by (simp add: disconnect_def)
  ultimately show ?thesis
    using off wait_disconnected [of "disconnect st" mid waits] run_loop_no_socket [of st c pb evs rc]
    by (simp add: connected_def)
qed

theorem run_ends_on_disconnect_witness:
  "run_loop linstor_consts (demo_pb id) [Select True (Some (Recv demo_reply_frame))]
      (demo_session, \<lparr>package = [], exp_pkg_len = 0\<rparr>)
     = (Exited, demo_session\<lparr>socket := None\<rparr>, \<lparr>package = [], exp_pkg_len = 0\<rparr>)
   \<and> run_loop linstor_consts (demo_pb id) [SelectFails True ''Bad file descriptor'']
      (demo_session, \<lparr>package = [], exp_pkg_len = 0\<rparr>)
     = (Raised (SelectError ''Bad file descriptor''), demo_session\<lparr>socket := None\<rparr>,
        \<lparr>package = [], exp_pkg_len = 0\<rparr>)
   \<and> run_loop linstor_consts (demo_pb id) [Select False (Some (Recv demo_reply_frame))]
      (demo_session\<lparr>socket := None\<rparr>, \<lparr>package = [], exp_pkg_len = 0\<rparr>)
     = (Exited, demo_session\<lparr>socket := None\<rparr>, \<lparr>package = [], exp_pkg_len = 0\<rparr>)
   \<and> wait_for_result 1 [[]] (demo_session\<lparr>socket := None\<rparr>)
     = (Some [], demo_session\<lparr>socket := None\<rparr>)"
  using run_ends_on_disconnect [of demo_session linstor_consts "demo_pb id"
      "[]" "\<lparr>package = [], exp_pkg_len = 0\<rparr>" "Select True (Some (Recv demo_reply_frame))" 1 "[[]]"]
    run_ends_on_disconnect [of demo_session linstor_consts "demo_pb id"
      "[]" "\<lparr>package = [], exp_pkg_len = 0\<rparr>" "SelectFails True ''Bad file descriptor''" 1 "[[]]"]
    run_ends_on_disconnect [of "demo_session\<lparr>socket := None\<rparr>" linstor_consts "demo_pb id"
      "[Select False (Some (Recv demo_reply_frame))]" "\<lparr>package = [], exp_pkg_len = 0\<rparr>"
      "Select False None" 1 "[[]]"]
  by (simp add: demo_session_def new_client_def disconnect_def)

text \<open>
  C9 (as stated, refuted).  The claim: a version message after the handshake ends the
  session, which becomes disconnected and releases its waiters.  The receiver fails
  its assertion and ends, but the socket stays set: the session is still connected
  and a waiter is still waiting after its next wake-up.
\<close>

theorem version_after_handshake_stays_connected:
  "run linstor_consts (demo_pb id) [Select False (Some (Recv demo_version_frame))] demo_session
     = (Raised AssertionError, demo_session, \<lparr>package = [], exp_pkg_len = 0\<rparr>)
   \<and> connected demo_session
   \<and> fst (wait_for_result 1 [[]] demo_session) = None"
  by (simp add: run_eval)

text \<open>
  C9 (amended).  On a session that has its api version, a complete frame whose header
  message carries the api call \<open>API_VERSION\<close> ends the receiver with an exception (the
  failed assertion, or the error of reading the version message) and is not processed
  as a reply: the reply table and the stored version are as before, and so is the
  socket.
\<close>

theorem version_after_handshake_raises:
  assumes "socket st \<noteq> None" and "api_version st \<noteq> None"
    and "exp_pkg_len rc = 0 \<or> exp_pkg_len rc = n" and "n \<noteq> 0"
    and "length (package rc @ read) = n + 16"
    and "parse_payload_length (take 16 (package rc @ read)) = Inr n"
    and "split_proto_msgs (drop 16 (package rc @ read)) = Inr (m0 # rest)"
    and "ParseMsgHeader pb m0 = Inr hdr" and "api_call hdr = API_VERSION c"
  shows "\<exists>e. run_loop c pb (Select False (Some (Recv read)) # evs) (st, rc) =
              (Raised e, st, \<lparr>package = [], exp_pkg_len = 0\<rparr>)"
proof -
  from assms(2,8,9) obtain e where d: "run_dispatch c pb (m0 # rest) st = (Some e, st)"
    by (cases rest; cases "ParseMsgApiVersion pb (hd rest)")
       (auto simp add: parse_api_version_def)
  from assms(3-7) d
  have "run_recv c pb read (st, rc) = (Some e, st, \<lparr>package = [], exp_pkg_len = 0\<rparr>)"
    by (auto simp add: run_recv_def Let_def)
  with assms(1) show ?thesis by auto
qed

theorem version_after_handshake_raises_witness:
  "\<exists>e. run_loop linstor_consts (demo_pb id) (Select False (Some (Recv demo_version_frame)) # [])
          (demo_session, \<lparr>package = [], exp_pkg_len = 0\<rparr>)
        = (Raised e, demo_session, \<lparr>package = [], exp_pkg_len = 0\<rparr>)"
  by (rule version_after_handshake_raises [where n = 5 and ?m0.0 = "[0, 0]" and rest = "[[1]]"
        and hdr = "\<lparr>api_call = ''Version'', msg_id = 0\<rparr>"])
     (simp_all add: run_eval)

section \<open>Sending a frame\<close>

lemma send_loop_all:
  "length F \<le> k \<Longrightarrow> send_loop (Accept k # rs) F 0 s = (None, s\<lparr>wire := wire s @ F\<rparr>)"
  by (cases rs) auto

lemma send_loop_short:
  "k < length F \<Longrightarrow> send_loop [Accept k] F 0 s = (None, s\<lparr>wire := wire s @ take k F @ F\<rparr>)"
  by auto

lemma be_uint32_four:
  "be_uint32 [a, b, c, d] = ((unat a * 256 + unat b) * 256 + unat c) * 256 + unat d"
  by (simp add: be_uint32_def)

lemma radix_256:
  fixes n :: nat
  assumes "n < 2 ^ 32"
  shows "(((n div 2 ^ 24) mod 256 * 256 + (n div 2 ^ 16) mod 256) * 256
          + (n div 2 ^ 8) mod 256) * 256 + n mod 256 = n"
proof -
  define m1 where "m1 = n div 256"
  define m2 where "m2 = m1 div 256"
  define m3 where "m3 = m2 div 256"
  have e1: "n div 2 ^ 8 = m1" by (simp add: m1_def)
  have e2: "n div 2 ^ 16 = m2" by (simp add: m2_def m1_def div_mult2_eq [symmetric])
  have e3: "n div 2 ^ 24 = m3" by (simp add: m3_def m2_def m1_def div_mult2_eq [symmetric])
  from assms have "m3 < 256" unfolding e3 [symmetric] by (simp add: less_mult_imp_div_less)
  then have s3: "m3 mod 256 = m3" by simp
  have "n = m1 * 256 + n mod 256" by (simp add: m1_def)
  moreover have "m1 = m2 * 256 + m1 mod 256" by (simp add: m2_def)
  moreover have "m2 = m3 * 256 + m2 mod 256" by (simp add: m3_def)
  ultimately have "n = ((m3 * 256 + m2 mod 256) * 256 + m1 mod 256) * 256 + n mod 256"
    by (simp only:)
  then show ?thesis by (simp only: e1 e2 e3 s3)
qed

lemma pack_uint32_inverse:
  "pack_uint32 n = Inr bs \<Longrightarrow> length bs = 4 \<and> be_uint32 bs = n"
proof -
  assume p: "pack_uint32 n = Inr bs"
  then have n: "n < 2 ^ 32" by (simp add: pack_uint32_def split: if_splits)
  with p have bs: "bs = [of_nat (n div 2 ^ 24), of_nat (n div 2 ^ 16), of_nat (n div 2 ^ 8), of_nat n]"
    by (simp add: pack_uint32_def)
  have u: "unat (of_nat x :: byte) = x mod 256" for x by (simp add: unat_of_nat)
  have "be_uint32 bs = (((n div 2 ^ 24) mod 256 * 256 + (n div 2 ^ 16) mod 256) * 256
          + (n div 2 ^ 8) mod 256) * 256 + n mod 256"
    by (simp only: bs be_uint32_four u)
  with radix_256 [OF n] have "be_uint32 bs = n" by (simp only:)
  moreover have "length bs = 4" by (simp only: bs) simp
  ultimately show ?thesis by (simp only: simp_thms)
qed

lemma full_msg_frame:
  assumes "full_msg pb hdr msgs = Inr F"
  shows "length F = 16 + length (msg_serialized pb hdr msgs)
         \<and> parse_payload_length (take 16 F) = Inr (length (msg_serialized pb hdr msgs))
         \<and> drop 16 F = msg_serialized pb hdr msgs"
proof -
  let ?p = "msg_serialized pb hdr msgs"
  from assms obtain l where l: "pack_uint32 (length ?p) = Inr l"
    and F: "F = [0, 0, 0, 0] @ l @ [0, 0, 0, 0, 0, 0, 0, 0] @ ?p"
    by (auto simp add: full_msg_def Let_def split: sum.splits)
  from pack_uint32_inverse [OF l] have len: "length l = 4" and v: "be_uint32 l = length ?p"
    by simp_all
  from len obtain a b c d where abcd: "l = [a, b, c, d]"
    by (cases l; cases "tl l"; cases "tl (tl l)"; cases "tl (tl (tl l))") auto
  from v show ?thesis
    by (simp add: F abcd parse_payload_length_def)
qed

lemma send_msgs_whole:
  assumes "socket st = Some s"
    and "full_msg pb \<lparr>api_call = t, msg_id = cur_msg_id st\<rparr> msgs = Inr F"
  shows "send_msgs pb [] t msgs st =
           (Inr (cur_msg_id st),
            st\<lparr>cur_msg_id := cur_msg_id st + 1, socket := Some (s\<lparr>wire := wire s @ F\<rparr>)\<rparr>)"
proof -
  from full_msg_frame [OF assms(2)] have "0 < length F" by simp
  with assms show ?thesis by (simp add: send_msgs_def get_and_inc_def)
qed

text \<open>
  C2 (the code differs).  The claim: the bytes written are the frame, once, also when a
  send accepts only part of it.  The loop passes the whole frame to every \<open>send\<close>, not
  the bytes that are left.  When the first send takes five of the nineteen bytes of
  this frame, the second writes the frame from its first byte again: the wire holds
  the first five bytes and then the whole frame, twenty-four bytes where the header
  announces 16 + 3.  By \<open>send_loop_short\<close> this is so for every frame and every short
  first write.  Without a short write the claim holds: by \<open>full_msg_frame\<close> a frame is
  sixteen bytes and its payload, with the payload's length in the header, and by
  \<open>send_msgs_whole\<close> and \<open>send_loop_all\<close> a send that takes everything writes the frame
  once.
\<close>

theorem send_msgs_short_write:
  "full_msg (demo_pb id) \<lparr>api_call = ''LstNode'', msg_id = 1\<rparr> None
     = Inr [0, 0, 0, 0, 0, 0, 0, 3, 0, 0, 0, 0, 0, 0, 0, 0, 2, 1, 4]
   \<and> send_msgs (demo_pb id) [Accept 5] ''LstNode'' None
       (new_client\<lparr>socket := Some \<lparr>wire = []\<rparr>\<rparr> :: bytes session)
     = (Inr 1, new_client\<lparr>socket := Some \<lparr>wire = [0, 0, 0, 0, 0] @
           [0, 0, 0, 0, 0, 0, 0, 3, 0, 0, 0, 0, 0, 0, 0, 0, 2, 1, 4]\<rparr>, cur_msg_id := 2\<rparr>)"
  by (simp add: send_msgs_def get_and_inc_def new_client_def full_msg_def msg_serialized_def
       demo_pb_def demo_tags_def delimited_def VarintBytes.simps pack_uint32_def)

section \<open>Connecting\<close>

lemma connect_rejects:
  "\<not> startswith (scheme u) ''linstor'' \<Longrightarrow>
     \<exists>msg. connect c parse_host establish server u st = (Inl (LinstorError msg), st)"
  by (simp add: connect_def)

lemma connect_default_port:
  "startswith (scheme u) ''linstor'' \<Longrightarrow> parse_host (netloc u) = (host, None) \<Longrightarrow>
   establish host (PortNum (if scheme u = ''linstor+ssl''
                            then DFLT_CTRL_PORT_SSL c else DFLT_CTRL_PORT_PLAIN c))
             (scheme u = ''linstor+ssl'') st = (None, st') \<Longrightarrow>
     connect c parse_host establish server u st = (Inr True, st')"
  by (simp add: connect_def)

text \<open>
  C8 (the code differs).  The claim: every scheme other than the two known ones is
  rejected before a socket is opened.  \<open>connect\<close> tests only that the scheme starts with
  \<open>linstor\<close>.  The scheme \<open>linstorfoo\<close> passes the test: \<open>connect\<close> goes on to open a plain
  connection to the controller's default plain port and returns \<open>True\<close>.  By
  \<open>connect_rejects\<close> a scheme that does not start with \<open>linstor\<close> is rejected with the
  session untouched, and by \<open>connect_default_port\<close> the default ports are as claimed.
\<close>

theorem connect_accepts_linstor_prefix:
  "connect linstor_consts (\<lambda>s. (s, None))
     (\<lambda>host port tls st.
        if host = ''localhost'' \<and> port = PortNum 3376 \<and> \<not> tls
        then (None, st\<lparr>socket := Some \<lparr>wire = []\<rparr>\<rparr>)
        else (Some (SocketError ''unreachable''), st))
     ''linstorfoo://localhost'' \<lparr>scheme = ''linstorfoo'', netloc = ''localhost''\<rparr>
     (new_client :: bytes session)
   = (Inr True, new_client\<lparr>socket := Some \<lparr>wire = []\<rparr>\<rparr>)"
  by (simp add: connect_def startswith_def linstor_consts_def)

section \<open>Splitting the payload\<close>

lemma low7: "(x::nat) AND 0x7f = x mod 128"
proof -
  have "x AND mask 7 = take_bit 7 x" by (simp add: take_bit_eq_mask)
  then show ?thesis by (simp add: mask_eq_exp_minus_1 take_bit_eq_mod)
qed

lemma bit7: "((x::nat) AND 0x80 = 0) = (x div 128 mod 2 = 0)"
  using and_exp_eq_0_iff_not_bit [of x 7] by (simp add: bit_iff_odd even_iff_mod_2_eq_zero)

lemma unat_byte: "x < 256 \<Longrightarrow> unat (of_nat x :: byte) = x"
  by (simp add: unat_of_nat)

lemma or_groups:
  "(r OR push_bit s (v mod 128)) OR push_bit (s + 7) (v div 128) = r OR push_bit s (v::nat)"
proof -
  have "push_bit s v = push_bit s (push_bit 7 (drop_bit 7 v) + take_bit 7 v)"
    by (simp only: bits_ident)
  also have "\<dots> = push_bit s (take_bit 7 v) + push_bit (s + 7) (drop_bit 7 v)"
    by (simp add: push_bit_add)
  also have "\<dots> = push_bit s (take_bit 7 v) OR push_bit (s + 7) (drop_bit 7 v)"
    by (rule disjunctive_add) (auto simp add: bit_simps)
  finally show ?thesis by (simp add: take_bit_eq_mod drop_bit_eq_div or.assoc)
qed

lemma mask32: "v < 2 ^ 32 \<Longrightarrow> (v::nat) AND (2 ^ 32 - 1) = v"
proof -
  assume "v < 2 ^ 32"
  then have "take_bit 32 v = v" by (simp add: take_bit_nat_eq_self)
  then show ?thesis by (simp add: take_bit_eq_mask mask_eq_exp_minus_1)
qed

lemma shift_bound:
  fixes v s :: nat
  assumes "v < 2 ^ (64 - s)" and "v div 128 \<noteq> 0"
  shows "s < 57 \<and> v div 128 < 2 ^ (64 - (s + 7))"
proof -
  from assms(2) have "2 ^ 7 \<le> v" by (simp add: div_eq_0_iff not_less)
  with assms(1) have lt: "(2::nat) ^ 7 < 2 ^ (64 - s)" by linarith
  have "7 < 64 - s" by (rule power_less_imp_less_exp [OF _ lt]) simp
  then have s: "s < 57" by simp
  then have e: "64 - s = 7 + (57 - s)" by simp
  have "(2::nat) ^ (64 - s) = 2 ^ 7 * 2 ^ (57 - s)"
    by (simp only: e power_add)
  with assms(1) have "v < 128 * 2 ^ (57 - s)" by simp
  then have "v div 128 < 2 ^ (57 - s)"
    by (simp only: less_mult_imp_div_less mult.commute)
  moreover have "64 - (s + 7) = 57 - s" by simp
  ultimately show ?thesis using s by simp
qed

lemma decode_step_last:
  "pos < length buffer \<Longrightarrow> unat (buffer ! pos) = x \<Longrightarrow> x < 128 \<Longrightarrow>
     DecodeVarint msk buffer pos r s = Inr ((r OR push_bit s x) AND msk, pos + 1)"
  by (subst DecodeVarint.simps) (simp add: low7 bit7 Let_def)

lemma decode_step_cont:
  assumes "pos < length buffer" and "unat (buffer ! pos) = 128 + x" and "x < 128" and "s < 57"
  shows "DecodeVarint msk buffer pos r s =
           DecodeVarint msk buffer (pos + 1) (r OR push_bit s x) (s + 7)"
proof -
  from assms(3) have "(128 + x) div 128 = 1" by (simp add: div_add_self1)
  then have c: "(128 + x) AND 0x80 \<noteq> 0" by (simp add: bit7)
  from assms(3) have l: "(128 + x) AND 0x7f = x" by (simp add: low7)
  from assms(1,2,4) c l show ?thesis
    by (subst DecodeVarint.simps) (simp add: Let_def del: push_bit_and)
qed

lemma decode_encoded:
  "v < 2 ^ (64 - s) \<Longrightarrow>
     DecodeVarint msk (pre @ VarintBytes v @ post) (length pre) r s =
       Inr ((r OR push_bit s v) AND msk, length pre + length (VarintBytes v))"
proof (induction v arbitrary: pre r s rule: VarintBytes.induct)
  case (1 v)
  let ?buf = "pre @ VarintBytes v @ post"
  show ?case
  proof (cases "v div 128 = 0")
    case True
    then have v: "v < 128" by (simp add: div_eq_0_iff)
    from True have enc: "VarintBytes v = [of_nat (v mod 128)]"
      by (subst VarintBytes.simps) simp
    have pos: "length pre < length ?buf" by (simp add: enc)
    from v have b: "unat (?buf ! length pre) = v" by (simp add: enc unat_byte)
    from decode_step_last [OF pos b v] show ?thesis by (simp add: enc)
  next
    case False
    let ?b = "of_nat (128 + v mod 128) :: byte"
    from False have enc: "VarintBytes v = ?b # VarintBytes (v div 128)"
      by (subst VarintBytes.simps) simp
    have pos: "length pre < length ?buf" by (simp only: enc length_append list.size)
    have "unat ?b = 128 + v mod 128" by (rule unat_byte) simp
    moreover have "?buf ! length pre = ?b" by (simp add: enc)
    ultimately have b: "unat (?buf ! length pre) = 128 + v mod 128" by (simp only:)
    have x: "v mod 128 < 128" by simp
    from shift_bound [OF "1.prems" False]
    have s: "s < 57" and small: "v div 128 < 2 ^ (64 - (s + 7))" by simp_all
    have buf: "?buf = (pre @ [?b]) @ VarintBytes (v div 128) @ post"
      by (simp only: enc append.simps append_assoc)
    have "DecodeVarint msk ?buf (length pre) r s =
          DecodeVarint msk ?buf (length pre + 1) (r OR push_bit s (v mod 128)) (s + 7)"
      by (rule decode_step_cont [OF pos b x s])
    also have "\<dots> = DecodeVarint msk ((pre @ [?b]) @ VarintBytes (v div 128) @ post)
            (length (pre @ [?b])) (r OR push_bit s (v mod 128)) (s + 7)"
      by (simp only: buf [symmetric] length_append list.size) simp
    also have "\<dots> = Inr (((r OR push_bit s (v mod 128)) OR push_bit (s + 7) (v div 128)) AND msk,
               length (pre @ [?b]) + length (VarintBytes (v div 128)))"
      by (rule "1.IH" [OF False small])
    also have "\<dots> = Inr ((r OR push_bit s v) AND msk, length pre + length (VarintBytes v))"
      by (simp only: or_groups enc length_append list.size) simp
    finally show ?thesis .
  qed
qed

lemma DecodeVarint32_encoded:
  "v < 2 ^ 32 \<Longrightarrow>
     DecodeVarint32 (pre @ VarintBytes v @ post) (length pre) =
       Inr (v, length pre + length (VarintBytes v))"
proof -
  assume v: "v < 2 ^ 32"
  then have "v < 2 ^ (64 - 0)" by simp
  from decode_encoded [OF this, of "2 ^ 32 - 1" pre post 0] mask32 [OF v] show ?thesis
    by (simp add: DecodeVarint32_def)
qed

lemma decode_runs_off:
  "\<forall>b \<in> set t. unat b AND 0x80 \<noteq> 0 \<Longrightarrow>
     \<exists>e. DecodeVarint msk (pre @ t) (length pre) r s = Inl e"
proof (induction t arbitrary: pre r s)
  case Nil
  then show ?case by (simp add: DecodeVarint.simps [of msk pre])
next
  case (Cons b t)
  from Cons.prems have "\<forall>b \<in> set t. unat b AND 0x80 \<noteq> 0" by simp
  from Cons.IH [OF this, of "pre @ [b]"] obtain e where
    "DecodeVarint msk (pre @ b # t) (length pre + 1)
       (r OR push_bit s (unat b AND 0x7f)) (s + 7) = Inl e"
    by auto
  with Cons.prems show ?case
    by (subst DecodeVarint.simps) (simp add: Let_def nth_append)
qed


lemma VarintBytes_nonempty: "VarintBytes v \<noteq> []"
  by (subst VarintBytes.simps) simp

lemma high_bit: "128 \<le> unat (b :: byte) \<Longrightarrow> unat b AND 0x80 \<noteq> 0"
proof -
  assume "128 \<le> unat b"
  moreover have "unat b < 256" using unsigned_less [of b, where ?'a = nat] by simp
  ultimately have "unat b div 128 = 1" by simp
  then show ?thesis by (simp add: bit7)
qed

lemma split_step:
  assumes "length m < 2 ^ 32"
  shows "split_loop (pre @ delimited m @ post) (length pre) acc =
           split_loop (pre @ delimited m @ post) (length pre + length (delimited m)) (acc @ [m])"
proof -
  let ?v = "VarintBytes (length m)"
  let ?buf = "pre @ ?v @ m @ post"
  have buf: "pre @ delimited m @ post = ?buf" by (simp add: delimited_def)
  have pos: "length pre < length ?buf" using VarintBytes_nonempty [of "length m"] by simp
  have dec: "DecodeVarint32 ?buf (length pre) = Inr (length m, length pre + length ?v)"
    by (rule DecodeVarint32_encoded [OF assms])
  have tk: "take (length m) (drop (length pre + length ?v) ?buf) = m" by simp
  have "split_loop ?buf (length pre) acc =
        split_loop ?buf (length pre + length ?v + length m)
          (acc @ [take (length m) (drop (length pre + length ?v) ?buf)])"
    using pos by (subst split_loop.simps) (simp only: dec if_True sum.case prod.case)
  then show ?thesis by (simp only: tk buf) (simp add: delimited_def add.assoc)
qed

lemma split_many:
  "\<forall>m \<in> set msgs. length m < 2 ^ 32 \<Longrightarrow>
     split_loop (pre @ concat (map delimited msgs) @ post) (length pre) acc =
       split_loop (pre @ concat (map delimited msgs) @ post)
         (length pre + length (concat (map delimited msgs))) (acc @ msgs)"
proof (induction msgs arbitrary: pre acc)
  case Nil
  then show ?case by simp
next
  case (Cons m msgs)
  let ?rest = "concat (map delimited msgs)"
  from Cons.prems have m: "length m < 2 ^ 32" and ms: "\<forall>m \<in> set msgs. length m < 2 ^ 32"
    by simp_all
  have "split_loop (pre @ delimited m @ ?rest @ post) (length pre) acc =
        split_loop (pre @ delimited m @ ?rest @ post) (length pre + length (delimited m)) (acc @ [m])"
    by (rule split_step [OF m])
  also have "\<dots> = split_loop ((pre @ delimited m) @ ?rest @ post) (length (pre @ delimited m)) (acc @ [m])"
    by simp
  also have "\<dots> = split_loop ((pre @ delimited m) @ ?rest @ post)
        (length (pre @ delimited m) + length ?rest) ((acc @ [m]) @ msgs)"
    by (rule Cons.IH [OF ms])
  finally show ?case by (simp add: add.assoc)
qed

lemma split_runs_off:
  assumes "\<forall>m \<in> set msgs. length m < 2 ^ 32" and "t \<noteq> []" and "\<forall>b \<in> set t. 128 \<le> unat b"
  shows "\<exists>e. split_proto_msgs (concat (map delimited msgs) @ t) = Inl e"
proof -
  let ?p = "concat (map delimited msgs)"
  from assms(3) have "\<forall>b \<in> set t. unat b AND 0x80 \<noteq> 0" by (simp add: high_bit)
  from decode_runs_off [OF this, of "2 ^ 32 - 1" ?p 0 0]
  obtain e where e: "DecodeVarint32 (?p @ t) (length ?p) = Inl e"
    by (auto simp add: DecodeVarint32_def)
  from split_many [OF assms(1), of "[]" t "[]"]
  have "split_proto_msgs (?p @ t) = split_loop (?p @ t) (length ?p) msgs"
    by (simp add: split_proto_msgs_def)
  also from assms(2) e have "\<dots> = Inl e"
    by (subst split_loop.simps) simp
  finally show ?thesis by blast
qed

lemma split_truncated:
  assumes "\<forall>m \<in> set msgs. length m < 2 ^ 32" and "L < 2 ^ 32" and "length body \<le> L"
  shows "split_proto_msgs (concat (map delimited msgs) @ VarintBytes L @ body) = Inr (msgs @ [body])"
proof -
  let ?p = "concat (map delimited msgs)"
  let ?buf = "?p @ VarintBytes L @ body"
  have dec: "DecodeVarint32 ?buf (length ?p) = Inr (L, length ?p + length (VarintBytes L))"
    by (rule DecodeVarint32_encoded [OF assms(2)])
  have pos: "length ?p < length ?buf" using VarintBytes_nonempty [of L] by simp
  from assms(3) have tk: "take L (drop (length ?p + length (VarintBytes L)) ?buf) = body" by simp
  from assms(3) have past: "\<not> length ?p + length (VarintBytes L) + L < length ?buf" by simp
  from split_many [OF assms(1), of "[]" "VarintBytes L @ body" "[]"]
  have "split_proto_msgs ?buf = split_loop ?buf (length ?p) msgs"
    by (simp add: split_proto_msgs_def)
  also have "\<dots> = split_loop ?buf (length ?p + length (VarintBytes L) + L)
       (msgs @ [take L (drop (length ?p + length (VarintBytes L)) ?buf)])"
    using pos by (subst split_loop.simps) (simp only: dec if_True sum.case prod.case)
  also have "\<dots> = Inr (msgs @ [body])"
    using past by (subst split_loop.simps) (simp only: tk if_False)
  finally show ?thesis .
qed

text \<open>
  C4 (as stated, refuted).  The claim: the split fails when a declared length exceeds
  the bytes that remain and never returns a truncated sub-message.  The slice
  \<open>payload[n:n + msg_len]\<close> does not fail: a payload that declares five bytes and holds
  two is split into one sub-message of two bytes.
\<close>

theorem split_proto_msgs_truncates:
  "split_proto_msgs [5, 1, 2] = Inr [[1, 2]]"
  by (simp add: split_proto_msgs_def split_loop.simps DecodeVarint32_def DecodeVarint.simps)

text \<open>
  C4 (amended).  Behind any sequence of well-formed sub-messages, a length prefix that
  runs off the end of the payload (every byte that is left has its high bit set) makes
  the split fail, with the decoder's error.  A declared length that is at least the
  number of bytes left does not: the bytes left are returned as the last sub-message,
  short or not, and the final position is not compared with the length of the payload.
\<close>

theorem split_proto_msgs_checks:
  "\<forall>m \<in> set msgs. length m < 2 ^ 32 \<Longrightarrow>
     (t \<noteq> [] \<and> (\<forall>b \<in> set t. 128 \<le> unat b) \<longrightarrow>
        (\<exists>e. split_proto_msgs (concat (map delimited msgs) @ t) = Inl e))
     \<and> (L < 2 ^ 32 \<and> length body \<le> L \<longrightarrow>
        split_proto_msgs (concat (map delimited msgs) @ VarintBytes L @ body) =
          Inr (msgs @ [body]))"
  using split_runs_off [of msgs t] split_truncated [of msgs L body] by simp

theorem split_proto_msgs_checks_witness:
  "(\<exists>e. split_proto_msgs [2, 1, 2, 0x80] = Inl e)
   \<and> split_proto_msgs [2, 1, 2, 5, 9] = Inr [[1, 2], [9]]"
  using split_proto_msgs_checks [of "[[1, 2]]" "[0x80]" 5 "[9]"]
  by (simp add: delimited_def VarintBytes.simps)

end
